theory Spec2Isabelle
  imports Main
begin

section \<open>The token gate of firehose/auth\_handler.go\<close>

text \<open>
  The file wraps an http.Handler with a shared-secret check. Go strings are byte
  sequences, so they are \<^typ>\<open>string\<close> here. A Go \<open>error\<close> is a
  \<^typ>\<open>string option\<close>: \<open>None\<close> is \<open>nil\<close>, \<open>Some m\<close> is \<open>errors.New(m)\<close>.
  A Go map \<open>map[string][]string\<close> is a partial map; reading a missing key gives the nil
  slice, whose length is 0.
\<close>

subsection \<open>strings.Index, strings.Count, strings.SplitN, strings.Split\<close>

text \<open>
  Both call sites split on a one-byte separator (\<open>" "\<close> and \<open>":"\<close>), so the separator
  is a \<^typ>\<open>char\<close>. \<open>Index\<close> is the position of the first separator; Go's \<open>-1\<close> is
  \<open>None\<close>.
\<close>

definition Index :: "string \<Rightarrow> char \<Rightarrow> nat option" where
  "Index s sep =
     (if sep \<in> set s then Some (length (takeWhile (\<lambda>c. c \<noteq> sep) s)) else None)"

definition Count :: "string \<Rightarrow> char \<Rightarrow> nat" where
  "Count s sep = count_list s sep"

text \<open>
  The loop of \<open>genSplit\<close>: \<open>k\<close> is the number of cuts still allowed (\<open>n - 1 - i\<close>
  in the source); it stops at the first miss and appends the remainder.
\<close>

fun genSplit_loop :: "nat \<Rightarrow> string \<Rightarrow> char \<Rightarrow> string list" where
  "genSplit_loop 0 s sep = [s]"
| "genSplit_loop (Suc k) s sep =
     (case Index s sep of
        None \<Rightarrow> [s]
      | Some m \<Rightarrow> take m s # genSplit_loop k (drop (m + 1) s) sep)"

definition genSplit :: "string \<Rightarrow> char \<Rightarrow> int \<Rightarrow> string list" where
  "genSplit s sep n =
     (if n = 0 then []
      else
        let n1 = (if n < 0 then int (Count s sep) + 1 else n);
            n2 = (if n1 > int (length s) + 1 then int (length s) + 1 else n1)
        in genSplit_loop (nat (n2 - 1)) s sep)"

definition SplitN :: "string \<Rightarrow> char \<Rightarrow> int \<Rightarrow> string list" where
  "SplitN s sep n = genSplit s sep n"

definition Split :: "string \<Rightarrow> char \<Rightarrow> string list" where
  "Split s sep = genSplit s sep (- 1)"

subsection \<open>The request, the handler and what a call produces\<close>

text \<open>
  The fields of http.Request the gate and \<open>ParseForm\<close> touch. \<open>Form\<close> is \<open>req.Form\<close>
  (url.Values).
\<close>

record Request =
  Method :: string
  URL :: string
  Header :: "string \<rightharpoonup> string list"
  Body :: string
  Form :: "string \<rightharpoonup> string list"
  PostForm :: "string \<rightharpoonup> string list"

record Basic =
  Username :: string
  Password :: string

text \<open>
  The middleware object: \<open>app\<close> is the decorated handler, here the function from the
  request it is given to whatever it answers.
\<close>

record 'r AuthHandler =
  app :: "Request \<Rightarrow> 'r"
  token :: string

text \<open>A run-time panic of the Go program.\<close>

datatype panic = NilPointerDereference

text \<open>
  What \<open>http.Error(rw, msg, code)\<close> of net/http leaves in the response, as the library
  documents it: the status code, and the body, which is the message followed by a line
  feed (the library writes it with \<open>fmt.Fprintln\<close>). The headers it sets
  (\<open>Content-Type: text/plain; charset=utf-8\<close>, \<open>X-Content-Type-Options: nosniff\<close>) are
  left out.
\<close>

record Response =
  StatusCode :: nat
  ResponseBody :: string

definition http_Error :: "string \<Rightarrow> nat \<Rightarrow> Response" where
  "http_Error msg code = \<lparr>StatusCode = code, ResponseBody = msg @ [CHR 0x0A]\<rparr>"

text \<open>
  What \<open>ServeHTTP\<close> does with the response writer: either it logs and answers through
  \<open>http.Error\<close>, or it hands the request to \<open>app\<close>. \<open>Reject args resp\<close> records the
  operands of \<open>log.Println\<close> and the response \<open>http.Error\<close> wrote.
\<close>

datatype 'r Effect = Reject "string list" Response | Forward 'r

definition StatusUnauthorized :: nat where
  "StatusUnauthorized = 401"

subsection \<open>Parse, ParseRequest, NewBasic\<close>

definition Parse :: "string \<Rightarrow> string \<times> string \<times> string option" where
  "Parse val =
     (let parts = SplitN val CHR '' '' 2 in
      if length parts = 2 then (parts ! 0, parts ! 1, None)
      else ('''', '''', Some ''The authorization header is malformed.''))"

definition ParseRequest :: "Request \<Rightarrow> string \<times> string \<times> string option" where
  "ParseRequest r =
     (case Header r ''Authorization'' of
        None \<Rightarrow> ('''', '''', Some ''The authorization header is not set.'')
      | Some h \<Rightarrow>
          if length h = 0 then ('''', '''', Some ''The authorization header is not set.'')
          else Parse (h ! 0))"

text \<open>
  \<open>base64.StdEncoding.DecodeString\<close> is the standard library's; \<open>NewBasic\<close> takes it as
  the parameter \<open>DecodeString\<close>, \<open>None\<close> when it returns a non-nil error (the bytes it
  returns beside an error are never read). The result is the pair \<open>(*Basic, error)\<close>,
  \<open>None\<close> in the first component being the nil pointer.
\<close>

definition NewBasic ::
  "(string \<Rightarrow> string option) \<Rightarrow> string \<Rightarrow> Basic option \<times> string option" where
  "NewBasic DecodeString credentials =
     (case DecodeString credentials of
        Some b \<Rightarrow>
          (let parts = Split b CHR '':'' in
           if length parts = 2
           then (Some \<lparr>Username = parts ! 0, Password = parts ! 1\<rparr>, None)
           else (None, Some ''The basic authentication header is malformed.''))
      | None \<Rightarrow> (None, Some ''The basic authentication header is malformed.''))"

subsection \<open>authorize, ServeHTTP, NewAuthHandler\<close>

text \<open>
  \<open>authorize\<close> returns the named results \<open>(unauthorized, reason)\<close>, which start at
  \<open>(false, "")\<close>, together with the request as the call leaves it: the default branch
  calls \<open>req.ParseForm()\<close>, the library function that fills \<open>req.Form\<close>, taken as the
  parameter \<open>ParseForm\<close>. In the Basic branch a failed \<open>NewBasic\<close> sets the reason and
  execution goes on to \<open>basic.Password\<close> with \<open>basic\<close> nil, which panics.
\<close>

definition authorize ::
  "(string \<Rightarrow> string option) \<Rightarrow> (Request \<Rightarrow> Request) \<Rightarrow> 'r AuthHandler \<Rightarrow> Request
     \<Rightarrow> panic + (Request \<times> bool \<times> string)" where
  "authorize DecodeString ParseForm handler req =
     (let (scheme, credentials, _) = ParseRequest req in
      if scheme = ''Bearer'' then
        Inr (req,
          if credentials \<noteq> token handler then (True, ''Invalid Access Token'')
          else (False, ''''))
      else if scheme = ''Basic'' then
        (let (basic, err) = NewBasic DecodeString credentials;
             (unauthorized, reason) =
               (if err \<noteq> None then (True, ''Malformed Basic Authorization crdentials'')
                else (False, ''''))
         in case basic of
              None \<Rightarrow> Inl NilPointerDereference
            | Some b \<Rightarrow>
                Inr (req,
                  if Password b \<noteq> token handler then (True, ''Invalid credentials'')
                  else (unauthorized, reason)))
      else
        (let req' = ParseForm req;
             access_token = (case Form req' ''access_token'' of None \<Rightarrow> [] | Some vs \<Rightarrow> vs)
         in Inr (req',
              if length access_token = 0 \<or> access_token ! 0 \<noteq> token handler
              then (True, ''Mising or invalid access_token'')
              else (False, ''''))))"

definition ServeHTTP ::
  "(string \<Rightarrow> string option) \<Rightarrow> (Request \<Rightarrow> Request) \<Rightarrow> 'r AuthHandler \<Rightarrow> Request
     \<Rightarrow> panic + 'r Effect" where
  "ServeHTTP DecodeString ParseForm handler req =
     (case authorize DecodeString ParseForm handler req of
        Inl p \<Rightarrow> Inl p
      | Inr (req', unauthorized, reason) \<Rightarrow>
          if unauthorized = True
          then Inr (Reject [''Unauthorised:'', reason] (http_Error reason StatusUnauthorized))
          else Inr (Forward (app handler req')))"

definition NewAuthHandler :: "(Request \<Rightarrow> 'r) \<Rightarrow> string \<Rightarrow> 'r AuthHandler" where
  "NewAuthHandler app' token' = \<lparr>app = app', token = token'\<rparr>"

subsection \<open>Repeated evaluation\<close>

text \<open>
  The decision of a call of \<open>authorize\<close>: its two results, or the panic, without the
  request.
\<close>

definition decision :: "panic + (Request \<times> bool \<times> string) \<Rightarrow> panic + (bool \<times> string)" where
  "decision r = (case r of Inl p \<Rightarrow> Inl p | Inr (req', d) \<Rightarrow> Inr d)"

text \<open>
  The decisions of \<open>n\<close> successive calls of \<open>authorize\<close> on one request object: each
  call sees the request as the call before left it. A call that panics has not touched
  the request.
\<close>

fun authorize_repeat ::
  "nat \<Rightarrow> (string \<Rightarrow> string option) \<Rightarrow> (Request \<Rightarrow> Request) \<Rightarrow> 'r AuthHandler \<Rightarrow> Request
     \<Rightarrow> (panic + bool \<times> string) list" where
  "authorize_repeat 0 DecodeString ParseForm handler req = []"
| "authorize_repeat (Suc n) DecodeString ParseForm handler req =
     (case authorize DecodeString ParseForm handler req of
        Inl p \<Rightarrow> Inl p # authorize_repeat n DecodeString ParseForm handler req
      | Inr (req', d) \<Rightarrow> Inr d # authorize_repeat n DecodeString ParseForm handler req')"

subsection \<open>Instances of the library functions and example requests\<close>

text \<open>
  The theorems below hold for every \<open>DecodeString\<close> and \<open>ParseForm\<close>. To evaluate them
  on concrete requests they are instantiated at a base64 decoder written after RFC 4648
  section 4 as encoding/base64 documents it for \<open>StdEncoding\<close>: the standard alphabet,
  padding with \<open>=\<close> required, carriage returns and line feeds ignored, the unused bits
  of a padded quantum not checked.
\<close>

definition decodeMap :: "(char \<times> nat) list" where
  "decodeMap =
     [(CHR ''A'', 0), (CHR ''B'', 1), (CHR ''C'', 2), (CHR ''D'', 3),
      (CHR ''E'', 4), (CHR ''F'', 5), (CHR ''G'', 6), (CHR ''H'', 7),
      (CHR ''I'', 8), (CHR ''J'', 9), (CHR ''K'', 10), (CHR ''L'', 11),
      (CHR ''M'', 12), (CHR ''N'', 13), (CHR ''O'', 14), (CHR ''P'', 15),
      (CHR ''Q'', 16), (CHR ''R'', 17), (CHR ''S'', 18), (CHR ''T'', 19),
      (CHR ''U'', 20), (CHR ''V'', 21), (CHR ''W'', 22), (CHR ''X'', 23),
      (CHR ''Y'', 24), (CHR ''Z'', 25), (CHR ''a'', 26), (CHR ''b'', 27),
      (CHR ''c'', 28), (CHR ''d'', 29), (CHR ''e'', 30), (CHR ''f'', 31),
      (CHR ''g'', 32), (CHR ''h'', 33), (CHR ''i'', 34), (CHR ''j'', 35),
      (CHR ''k'', 36), (CHR ''l'', 37), (CHR ''m'', 38), (CHR ''n'', 39),
      (CHR ''o'', 40), (CHR ''p'', 41), (CHR ''q'', 42), (CHR ''r'', 43),
      (CHR ''s'', 44), (CHR ''t'', 45), (CHR ''u'', 46), (CHR ''v'', 47),
      (CHR ''w'', 48), (CHR ''x'', 49), (CHR ''y'', 50), (CHR ''z'', 51),
      (CHR ''0'', 52), (CHR ''1'', 53), (CHR ''2'', 54), (CHR ''3'', 55),
      (CHR ''4'', 56), (CHR ''5'', 57), (CHR ''6'', 58), (CHR ''7'', 59),
      (CHR ''8'', 60), (CHR ''9'', 61), (CHR ''+'', 62), (CHR ''/'', 63)]"

definition quantum :: "nat \<Rightarrow> nat \<Rightarrow> nat \<Rightarrow> nat \<Rightarrow> string" where
  "quantum a b c d =
     (let val = a * 262144 + b * 4096 + c * 64 + d
      in [char_of (val div 65536), char_of (val div 256), char_of val])"

fun decodeQuanta :: "string \<Rightarrow> string option" where
  "decodeQuanta [] = Some []"
| "decodeQuanta [a, b, c, d] =
     (case (map_of decodeMap a, map_of decodeMap b) of
        (Some x, Some y) \<Rightarrow>
          if c = CHR ''='' then
            (if d = CHR ''='' then Some (take 1 (quantum x y 0 0)) else None)
          else
            (case map_of decodeMap c of
               None \<Rightarrow> None
             | Some z \<Rightarrow>
                 if d = CHR ''='' then Some (take 2 (quantum x y z 0))
                 else (case map_of decodeMap d of
                         None \<Rightarrow> None
                       | Some w \<Rightarrow> Some (quantum x y z w)))
      | _ \<Rightarrow> None)"
| "decodeQuanta (a # b # c # d # rest) =
     (case (map_of decodeMap a, map_of decodeMap b, map_of decodeMap c, map_of decodeMap d) of
        (Some x, Some y, Some z, Some w) \<Rightarrow>
          map_option (\<lambda>r. quantum x y z w @ r) (decodeQuanta rest)
      | _ \<Rightarrow> None)"
| "decodeQuanta _ = None"

definition StdEncoding_DecodeString :: "string \<Rightarrow> string option" where
  "StdEncoding_DecodeString s =
     decodeQuanta (filter (\<lambda>c. c \<noteq> CHR 0x0A \<and> c \<noteq> CHR 0x0D) s)"

text \<open>
  \<open>ParseForm\<close> of net/http, for a request without a body form (a GET request) as the
  server delivers it or as an earlier \<open>ParseForm\<close> left it: \<open>PostForm\<close> is empty and
  \<open>Form\<close> holds the pairs of the URL's query, read as \<open>url.ParseQuery\<close> documents it.
  The query is what follows the first \<open>?\<close>; it is cut at every \<open>&\<close>; an empty piece
  and a piece with a \<open>;\<close> are dropped; a piece is cut at its first \<open>=\<close> into key and
  value; in both \<open>+\<close> is a space and \<open>%XY\<close> the byte with that hexadecimal code, and a
  piece with a malformed escape is dropped; the values of a key are kept in order.
\<close>

definition Cut :: "string \<Rightarrow> char \<Rightarrow> string \<times> string" where
  "Cut s sep = (case Index s sep of None \<Rightarrow> (s, []) | Some m \<Rightarrow> (take m s, drop (m + 1) s))"

definition unhex :: "(char \<times> nat) list" where
  "unhex =
     [(CHR ''0'', 0), (CHR ''1'', 1), (CHR ''2'', 2), (CHR ''3'', 3), (CHR ''4'', 4),
      (CHR ''5'', 5), (CHR ''6'', 6), (CHR ''7'', 7), (CHR ''8'', 8), (CHR ''9'', 9),
      (CHR ''a'', 10), (CHR ''b'', 11), (CHR ''c'', 12), (CHR ''d'', 13), (CHR ''e'', 14),
      (CHR ''f'', 15), (CHR ''A'', 10), (CHR ''B'', 11), (CHR ''C'', 12), (CHR ''D'', 13),
      (CHR ''E'', 14), (CHR ''F'', 15)]"

fun QueryUnescape :: "string \<Rightarrow> string option" where
  "QueryUnescape [] = Some []"
| "QueryUnescape (c # s) =
     (if c = CHR ''%'' then
        (case s of
           a # b # rest \<Rightarrow>
             (case (map_of unhex a, map_of unhex b) of
                (Some x, Some y) \<Rightarrow>
                  map_option (\<lambda>r. char_of (x * 16 + y) # r) (QueryUnescape rest)
              | _ \<Rightarrow> None)
         | _ \<Rightarrow> None)
      else map_option (\<lambda>r. (if c = CHR ''+'' then CHR '' '' else c) # r) (QueryUnescape s))"

definition addPair :: "(string \<rightharpoonup> string list) \<Rightarrow> string \<Rightarrow> (string \<rightharpoonup> string list)" where
  "addPair m piece =
     (if CHR '';'' \<in> set piece \<or> piece = [] then m
      else
        let (k, v) = Cut piece CHR ''=''
        in case (QueryUnescape k, QueryUnescape v) of
             (Some key, Some val) \<Rightarrow>
               m(key \<mapsto> (case m key of None \<Rightarrow> [] | Some vs \<Rightarrow> vs) @ [val])
           | _ \<Rightarrow> m)"

definition ParseQuery :: "string \<Rightarrow> (string \<rightharpoonup> string list)" where
  "ParseQuery query = foldl addPair Map.empty (Split query CHR ''&'')"

definition ParseForm_GET :: "Request \<Rightarrow> Request" where
  "ParseForm_GET r =
     r\<lparr>PostForm := Map.empty, Form := ParseQuery (snd (Cut (URL r) CHR ''?''))\<rparr>"

text \<open>
  \<open>GET_events auth query\<close> is the request \<open>GET /events\<close> as the server delivers it,
  with the query string \<open>query\<close> (\<open>None\<close>: no query) and with the values \<open>auth\<close> of the
  Authorization header (\<open>None\<close>: no such header).
\<close>

definition GET_events :: "string list option \<Rightarrow> string option \<Rightarrow> Request" where
  "GET_events auth query =
     \<lparr>Method = ''GET'',
      URL = (case query of None \<Rightarrow> ''/events'' | Some q \<Rightarrow> ''/events?'' @ q),
      Header = (case auth of None \<Rightarrow> Map.empty | Some h \<Rightarrow> [''Authorization'' \<mapsto> h]),
      Body = [],
      Form = Map.empty,
      PostForm = Map.empty\<rparr>"

text \<open>The downstream handler of the examples answers with the request it was given.\<close>

datatype Downstream = Handled Request

definition gate :: "Downstream AuthHandler" where
  "gate = NewAuthHandler Handled ''s3cr3t''"

definition open_gate :: "Downstream AuthHandler" where
  "open_gate = NewAuthHandler Handled []"

section \<open>Splitting strings\<close>

lemma Index_None: "sep \<notin> set s \<Longrightarrow> Index s sep = None"
  by (simp add: Index_def)

lemma Index_first: "sep \<notin> set a \<Longrightarrow> Index (a @ sep # b) sep = Some (length a)"
  by (induction a) (auto simp: Index_def)

lemma genSplit_loop_no_sep: "sep \<notin> set s \<Longrightarrow> genSplit_loop k s sep = [s]"
  by (cases k) (simp_all add: Index_None)

lemma genSplit_loop_cut:
  "sep \<notin> set a \<Longrightarrow>
   genSplit_loop (Suc k) (a @ sep # b) sep = a # genSplit_loop k b sep"
  by (simp add: Index_first)

lemma count_list_0_iff: "count_list s x = 0 \<longleftrightarrow> x \<notin> set s"
  by (induction s) auto

lemma count_list_le_length: "count_list s x \<le> length s"
  by (induction s) auto

lemma length_genSplit_loop:
  "length (genSplit_loop k s sep) = min k (count_list s sep) + 1"
proof (induction k arbitrary: s)
  case 0
  show ?case by simp
next
  case (Suc k)
  show ?case
  proof (cases "sep \<in> set s")
    case False
    then show ?thesis
      by (simp add: Index_None count_list_0_iff [THEN iffD2])
  next
    case True
    then obtain a b where s: "s = a @ sep # b" and a: "sep \<notin> set a"
      by (meson split_list_first)
    have "count_list a sep = 0" using a by (simp add: count_list_0_iff)
    then have "count_list s sep = Suc (count_list b sep)" by (simp add: s)
    then show ?thesis
      using Suc.IH [of b] a by (simp add: s genSplit_loop_cut del: genSplit_loop.simps)
  qed
qed

lemma Split_loop: "Split s sep = genSplit_loop (count_list s sep) s sep"
proof -
  have "count_list s sep \<le> length s" by (rule count_list_le_length)
  then show ?thesis by (simp add: Split_def genSplit_def Count_def Let_def)
qed

lemma length_Split: "length (Split s sep) = count_list s sep + 1"
  by (simp add: Split_loop length_genSplit_loop)

lemma Split_two:
  assumes "sep \<notin> set u" and "sep \<notin> set p"
  shows "Split (u @ sep # p) sep = [u, p]"
proof -
  have "count_list (u @ sep # p) sep = Suc 0"
    using assms by (simp add: count_list_0_iff)
  then show ?thesis
    using assms by (simp add: Split_loop genSplit_loop_cut genSplit_loop_no_sep del: genSplit_loop.simps)
qed

lemma Split_two_iff:
  "Split s sep = [u, p] \<longleftrightarrow> s = u @ sep # p \<and> sep \<notin> set u \<and> sep \<notin> set p"
proof
  assume eq: "Split s sep = [u, p]"
  then have "length (Split s sep) = 2" by simp
  then have c: "count_list s sep = 1" by (simp add: length_Split)
  then have "sep \<in> set s" using count_list_0_iff [of s sep] by auto
  then obtain a b where s: "s = a @ sep # b" and a: "sep \<notin> set a"
    by (meson split_list_first)
  have "count_list a sep = 0" using a by (simp add: count_list_0_iff)
  with c have "count_list b sep = 0" by (simp add: s)
  then have b: "sep \<notin> set b" by (simp add: count_list_0_iff)
  have "Split s sep = [a, b]" unfolding s using a b by (rule Split_two)
  with eq have "u = a" "p = b" by simp_all
  then show "s = u @ sep # p \<and> sep \<notin> set u \<and> sep \<notin> set p"
    using s a b by simp
next
  assume "s = u @ sep # p \<and> sep \<notin> set u \<and> sep \<notin> set p"
  then show "Split s sep = [u, p]" by (simp add: Split_two)
qed

lemma SplitN_2_cut:
  assumes "sep \<notin> set a"
  shows "SplitN (a @ sep # b) sep 2 = [a, b]"
proof -
  have "genSplit_loop (Suc 0) (a @ sep # b) sep = [a, b]"
    using assms genSplit_loop_cut [of sep a 0 b] by simp
  then show ?thesis
    by (simp add: SplitN_def genSplit_def Let_def del: genSplit_loop.simps)
qed

lemma SplitN_2_no_sep:
  assumes "sep \<notin> set s"
  shows "SplitN s sep 2 = [s]"
  using assms by (simp add: SplitN_def genSplit_def Let_def genSplit_loop_no_sep)

section \<open>The branches of the gate\<close>

lemma length_SplitN_2: "length (SplitN s sep 2) = 2 \<longleftrightarrow> sep \<in> set s"
proof (cases "sep \<in> set s")
  case True
  then obtain a b where "s = a @ sep # b" and "sep \<notin> set a"
    by (meson split_list_first)
  then show ?thesis by (simp add: SplitN_2_cut)
next
  case False
  then show ?thesis by (simp add: SplitN_2_no_sep)
qed

lemma Parse_cut:
  "CHR '' '' \<notin> set sch \<Longrightarrow> Parse (sch @ CHR '' '' # rest) = (sch, rest, None)"
  by (simp add: Parse_def SplitN_2_cut)

lemma Parse_no_space:
  "CHR '' '' \<notin> set v \<Longrightarrow>
   Parse v = ('''', '''', Some ''The authorization header is malformed.'')"
  by (simp add: Parse_def SplitN_2_no_sep)

lemma ParseRequest_first:
  "Header r ''Authorization'' = Some (v # vs) \<Longrightarrow> ParseRequest r = Parse v"
  by (simp add: ParseRequest_def)

lemma ParseRequest_unset:
  "Header r ''Authorization'' = None \<or> Header r ''Authorization'' = Some [] \<Longrightarrow>
   ParseRequest r = ('''', '''', Some ''The authorization header is not set.'')"
  by (auto simp: ParseRequest_def)

lemma authorize_default:
  assumes "fst (ParseRequest req) \<noteq> ''Bearer''" and "fst (ParseRequest req) \<noteq> ''Basic''"
  shows "authorize dec pf h req =
     Inr (pf req,
       if \<exists>ws. Form (pf req) ''access_token'' = Some (token h # ws) then (False, '''')
       else (True, ''Mising or invalid access_token''))"
proof -
  obtain sch cred e where p: "ParseRequest req = (sch, cred, e)"
    by (cases "ParseRequest req") auto
  with assms have "sch \<noteq> ''Bearer''" "sch \<noteq> ''Basic''" by simp_all
  then show ?thesis
    unfolding authorize_def p Let_def
    by (cases "Form (pf req) ''access_token''") (auto simp: neq_Nil_conv)
qed

lemma ServeHTTP_default:
  assumes "fst (ParseRequest req) \<noteq> ''Bearer''" and "fst (ParseRequest req) \<noteq> ''Basic''"
  shows "ServeHTTP dec pf h req =
     (if \<exists>ws. Form (pf req) ''access_token'' = Some (token h # ws)
      then Inr (Forward (app h (pf req)))
      else Inr (Reject [''Unauthorised:'', ''Mising or invalid access_token'']
                  (http_Error ''Mising or invalid access_token'' StatusUnauthorized)))"
  by (simp add: ServeHTTP_def authorize_default [OF assms])

lemma authorize_Bearer:
  assumes "Header req ''Authorization'' = Some ((''Bearer '' @ C) # vs)"
  shows "authorize dec pf h req =
     Inr (req, if C \<noteq> token h then (True, ''Invalid Access Token'') else (False, ''''))"
proof -
  have "Parse (''Bearer'' @ CHR '' '' # C) = (''Bearer'', C, None)"
    by (rule Parse_cut) simp
  then have "ParseRequest req = (''Bearer'', C, None)"
    using ParseRequest_first [OF assms] by simp
  then show ?thesis by (simp add: authorize_def)
qed

lemma ParseRequest_Basic:
  assumes "Header req ''Authorization'' = Some ((''Basic '' @ cred) # vs)"
  shows "ParseRequest req = (''Basic'', cred, None)"
proof -
  have "Parse (''Basic'' @ CHR '' '' # cred) = (''Basic'', cred, None)"
    by (rule Parse_cut) simp
  then show ?thesis using ParseRequest_first [OF assms] by simp
qed

lemma NewBasic_ok:
  assumes "dec c = Some (u @ CHR '':'' # p)" and "CHR '':'' \<notin> set u" and "CHR '':'' \<notin> set p"
  shows "NewBasic dec c = (Some \<lparr>Username = u, Password = p\<rparr>, None)"
  using assms by (simp add: NewBasic_def Split_two)

lemma NewBasic_fails:
  assumes "dec c = None \<or> (\<exists>b. dec c = Some b \<and> length (Split b CHR '':'') \<noteq> 2)"
  shows "NewBasic dec c = (None, Some ''The basic authentication header is malformed.'')"
  using assms by (auto simp: NewBasic_def)

lemma authorize_Basic_ok:
  assumes "Header req ''Authorization'' = Some ((''Basic '' @ b64) # vs)"
    and "dec b64 = Some (u @ CHR '':'' # p)"
    and "CHR '':'' \<notin> set u" and "CHR '':'' \<notin> set p"
  shows "authorize dec pf h req =
     Inr (req, if p \<noteq> token h then (True, ''Invalid credentials'') else (False, ''''))"
proof -
  have p: "ParseRequest req = (''Basic'', b64, None)"
    using assms(1) by (rule ParseRequest_Basic)
  have n: "NewBasic dec b64 = (Some \<lparr>Username = u, Password = p\<rparr>, None)"
    using assms(2-4) by (rule NewBasic_ok)
  show ?thesis by (simp add: authorize_def p n)
qed

lemma authorize_Basic_malformed:
  assumes "Header req ''Authorization'' = Some ((''Basic '' @ cred) # vs)"
    and "dec cred = None \<or> (\<exists>b. dec cred = Some b \<and> length (Split b CHR '':'') \<noteq> 2)"
  shows "authorize dec pf h req = Inl NilPointerDereference"
proof -
  have p: "ParseRequest req = (''Basic'', cred, None)"
    using assms(1) by (rule ParseRequest_Basic)
  have n: "NewBasic dec cred = (None, Some ''The basic authentication header is malformed.'')"
    using assms(2) by (rule NewBasic_fails)
  show ?thesis by (simp add: authorize_def p n)
qed

section \<open>The example requests\<close>

lemma decode_alice_s3cr3t:
  "StdEncoding_DecodeString ''YWxpY2U6czNjcjN0'' = Some ''alice:s3cr3t''"
  by (simp add: StdEncoding_DecodeString_def decodeMap_def quantum_def char_of_def bit_0)

lemma decode_empty_user:
  "StdEncoding_DecodeString ''OnMzY3IzdA=='' = Some '':s3cr3t''"
  by (simp add: StdEncoding_DecodeString_def decodeMap_def quantum_def char_of_def bit_0)

lemma decode_alice_wrong:
  "StdEncoding_DecodeString ''YWxpY2U6d3Jvbmc='' = Some ''alice:wrong''"
  by (simp add: StdEncoding_DecodeString_def decodeMap_def quantum_def char_of_def bit_0)

lemma decode_two_colons:
  "StdEncoding_DecodeString ''YWxpY2U6czM6Y3IzdA=='' = Some ''alice:s3:cr3t''"
  by (simp add: StdEncoding_DecodeString_def decodeMap_def quantum_def char_of_def bit_0)

lemma decode_not_base64: "StdEncoding_DecodeString ''!!!'' = None"
  by (simp add: StdEncoding_DecodeString_def decodeMap_def)

lemma decode_no_colon:
  "StdEncoding_DecodeString ''YWxpY2VzM2NyM3Q='' = Some ''alices3cr3t''"
  by (simp add: StdEncoding_DecodeString_def decodeMap_def quantum_def char_of_def bit_0)

lemma Header_GET_events:
  "Header (GET_events (Some h) query) ''Authorization'' = Some h"
  "Header (GET_events None query) ''Authorization'' = None"
  by (simp_all add: GET_events_def)

lemma Header_ParseForm_GET: "Header (ParseForm_GET r) = Header r"
  by (simp add: ParseForm_GET_def)

lemma ParseForm_GET_idem: "ParseForm_GET (ParseForm_GET r) = ParseForm_GET r"
  by (simp add: ParseForm_GET_def)

lemma Form_no_query:
  "Form (ParseForm_GET (GET_events auth None)) ''access_token'' = None"
  by (simp add: ParseForm_GET_def GET_events_def Cut_def Index_def ParseQuery_def Split_loop
      addPair_def)

lemma Form_token:
  "Form (ParseForm_GET (GET_events auth (Some ''access_token=s3cr3t''))) ''access_token'' =
     Some [''s3cr3t'']"
  by (simp add: ParseForm_GET_def GET_events_def Cut_def Index_def ParseQuery_def Split_loop
      addPair_def)

lemma Form_two_values:
  "Form (ParseForm_GET (GET_events auth (Some ''access_token=wrong&access_token=s3cr3t'')))
     ''access_token'' = Some [''wrong'', ''s3cr3t'']"
  by (simp add: ParseForm_GET_def GET_events_def Cut_def Index_def ParseQuery_def Split_loop
      addPair_def)

lemma Form_empty_value:
  "Form (ParseForm_GET (GET_events auth (Some ''access_token=''))) ''access_token'' = Some ['''']"
  by (simp add: ParseForm_GET_def GET_events_def Cut_def Index_def ParseQuery_def Split_loop
      addPair_def)

lemma Form_escaped:
  "Form (ParseForm_GET (GET_events auth (Some ''x=1&access%5Ftoken=s3c%723t+'')))
     ''access_token'' = Some [''s3cr3t '']"
  by (simp add: ParseForm_GET_def GET_events_def Cut_def Index_def ParseQuery_def Split_loop
      addPair_def unhex_def char_of_def bit_0)

section \<open>The claims\<close>

text \<open>
  Claim C3, as the code has it. With the token \<open>T\<close> configured, a request whose first
  Authorization value is \<open>Bearer C\<close> is handed to the downstream handler as it came when
  \<open>C = T\<close>. Otherwise it is answered through \<open>http.Error\<close> with the message
  \<open>Invalid Access Token\<close> and status 401, so the body is that message followed by a
  line feed.
\<close>

theorem Bearer_token_decides:
  assumes "Header req ''Authorization'' = Some ((''Bearer '' @ C) # vs)"
  shows "ServeHTTP dec pf (NewAuthHandler a T) req =
     (if C = T then Inr (Forward (a req))
      else Inr (Reject [''Unauthorised:'', ''Invalid Access Token'']
                  \<lparr>StatusCode = StatusUnauthorized,
                   ResponseBody = ''Invalid Access Token'' @ [CHR 0x0A]\<rparr>))"
  by (simp add: ServeHTTP_def authorize_Bearer [OF assms] NewAuthHandler_def http_Error_def)

theorem Bearer_token_decides_witness:
  "ServeHTTP StdEncoding_DecodeString ParseForm_GET gate
     (GET_events (Some [''Bearer s3cr3t'']) None) =
   Inr (Forward (Handled (GET_events (Some [''Bearer s3cr3t'']) None))) \<and>
   ServeHTTP StdEncoding_DecodeString ParseForm_GET gate
     (GET_events (Some [''Bearer wrong'']) None) =
   Inr (Reject [''Unauthorised:'', ''Invalid Access Token'']
          \<lparr>StatusCode = 401, ResponseBody = ''Invalid Access Token'' @ [CHR 0x0A]\<rparr>)"
proof -
  have ok: "Header (GET_events (Some [''Bearer s3cr3t'']) None) ''Authorization'' =
      Some ((''Bearer '' @ ''s3cr3t'') # [])"
    by (simp add: Header_GET_events)
  have bad: "Header (GET_events (Some [''Bearer wrong'']) None) ''Authorization'' =
      Some ((''Bearer '' @ ''wrong'') # [])"
    by (simp add: Header_GET_events)
  show ?thesis
    using Bearer_token_decides [OF ok, of StdEncoding_DecodeString ParseForm_GET Handled "''s3cr3t''"]
      Bearer_token_decides [OF bad, of StdEncoding_DecodeString ParseForm_GET Handled "''s3cr3t''"]
    by (simp add: gate_def StatusUnauthorized_def)
qed

text \<open>
  The body of that answer is not exactly \<open>Invalid Access Token\<close>: for the token
  \<open>s3cr3t\<close> and the header \<open>Authorization: Bearer wrong\<close> it ends with a line feed.
\<close>

theorem Bearer_wrong_body_has_line_feed:
  "ServeHTTP StdEncoding_DecodeString ParseForm_GET gate
     (GET_events (Some [''Bearer wrong'']) None) =
   Inr (Reject [''Unauthorised:'', ''Invalid Access Token'']
          \<lparr>StatusCode = 401, ResponseBody = ''Invalid Access Token'' @ [CHR 0x0A]\<rparr>) \<and>
   ''Invalid Access Token'' @ [CHR 0x0A] \<noteq> ''Invalid Access Token''"
proof -
  have "Header (GET_events (Some [''Bearer wrong'']) None) ''Authorization'' =
      Some ((''Bearer '' @ ''wrong'') # [])"
    by (simp add: Header_GET_events)
  then have "authorize StdEncoding_DecodeString ParseForm_GET gate
      (GET_events (Some [''Bearer wrong'']) None) =
      Inr (GET_events (Some [''Bearer wrong'']) None, True, ''Invalid Access Token'')"
    using authorize_Bearer [of "GET_events (Some [''Bearer wrong'']) None" "''wrong''" "[]"
        StdEncoding_DecodeString ParseForm_GET gate]
    by (simp add: gate_def NewAuthHandler_def)
  then show ?thesis
    by (simp add: ServeHTTP_def http_Error_def StatusUnauthorized_def)
qed

text \<open>
  Claim C1. A request whose first Authorization value is \<open>Basic cred\<close>, where \<open>cred\<close>
  does not decode or decodes to a text that \<open>:\<close> does not split into exactly two fields,
  gets no 401 answer: \<open>authorize\<close> sets the reason and then reads \<open>basic.Password\<close>
  through the nil pointer, so \<open>ServeHTTP\<close> panics.
\<close>

theorem Basic_malformed_panics:
  assumes "Header req ''Authorization'' = Some ((''Basic '' @ cred) # vs)"
    and "dec cred = None \<or> (\<exists>b. dec cred = Some b \<and> length (Split b CHR '':'') \<noteq> 2)"
  shows "ServeHTTP dec pf h req = Inl NilPointerDereference"
  by (simp add: ServeHTTP_def authorize_Basic_malformed [where dec = dec and cred = cred, OF assms])

theorem Basic_malformed_panics_witness:
  "ServeHTTP StdEncoding_DecodeString ParseForm_GET gate
     (GET_events (Some [''Basic !!!'']) None) = Inl NilPointerDereference \<and>
   ServeHTTP StdEncoding_DecodeString ParseForm_GET gate
     (GET_events (Some [''Basic YWxpY2U6czM6Y3IzdA=='']) None) = Inl NilPointerDereference"
proof -
  have h1: "Header (GET_events (Some [''Basic !!!'']) None) ''Authorization'' =
      Some ((''Basic '' @ ''!!!'') # [])"
    by (simp add: Header_GET_events)
  have d1: "StdEncoding_DecodeString ''!!!'' = None \<or>
      (\<exists>b. StdEncoding_DecodeString ''!!!'' = Some b \<and> length (Split b CHR '':'') \<noteq> 2)"
    by (simp add: decode_not_base64)
  have h2: "Header (GET_events (Some [''Basic YWxpY2U6czM6Y3IzdA=='']) None) ''Authorization'' =
      Some ((''Basic '' @ ''YWxpY2U6czM6Y3IzdA=='') # [])"
    by (simp add: Header_GET_events)
  have d2: "StdEncoding_DecodeString ''YWxpY2U6czM6Y3IzdA=='' = None \<or>
      (\<exists>b. StdEncoding_DecodeString ''YWxpY2U6czM6Y3IzdA=='' = Some b \<and>
         length (Split b CHR '':'') \<noteq> 2)"
    by (simp add: decode_two_colons length_Split)
  show ?thesis
    using Basic_malformed_panics [where dec = StdEncoding_DecodeString and cred = "''!!!''", OF h1 d1, of ParseForm_GET gate]
      Basic_malformed_panics [where dec = StdEncoding_DecodeString and cred = "''YWxpY2U6czM6Y3IzdA==''", OF h2 d2, of ParseForm_GET gate]
    by simp
qed

text \<open>
  Claim C4, as the code has it. With the token \<open>T\<close> configured, a request whose first
  Authorization value is \<open>Basic b64\<close>, where \<open>b64\<close> decodes to \<open>u:p\<close> with no
  further colon, is handed to the downstream handler as it came when \<open>p = T\<close>, whatever
  \<open>u\<close> is (the empty username included). Otherwise it is answered through
  \<open>http.Error\<close> with the message \<open>Invalid credentials\<close> and status 401, so the body
  is that message followed by a line feed.
\<close>

theorem Basic_password_decides:
  assumes "Header req ''Authorization'' = Some ((''Basic '' @ b64) # vs)"
    and "dec b64 = Some (u @ CHR '':'' # p)"
    and "CHR '':'' \<notin> set u" and "CHR '':'' \<notin> set p"
  shows "ServeHTTP dec pf (NewAuthHandler a T) req =
     (if p = T then Inr (Forward (a req))
      else Inr (Reject [''Unauthorised:'', ''Invalid credentials'']
                  \<lparr>StatusCode = StatusUnauthorized,
                   ResponseBody = ''Invalid credentials'' @ [CHR 0x0A]\<rparr>))"
  by (simp add: ServeHTTP_def authorize_Basic_ok [where dec = dec and ?b64.0 = b64, OF assms]
      NewAuthHandler_def http_Error_def)

theorem Basic_password_decides_witness:
  "ServeHTTP StdEncoding_DecodeString ParseForm_GET gate
     (GET_events (Some [''Basic YWxpY2U6czNjcjN0'']) None) =
   Inr (Forward (Handled (GET_events (Some [''Basic YWxpY2U6czNjcjN0'']) None))) \<and>
   ServeHTTP StdEncoding_DecodeString ParseForm_GET gate
     (GET_events (Some [''Basic OnMzY3IzdA=='']) None) =
   Inr (Forward (Handled (GET_events (Some [''Basic OnMzY3IzdA=='']) None))) \<and>
   ServeHTTP StdEncoding_DecodeString ParseForm_GET gate
     (GET_events (Some [''Basic YWxpY2U6d3Jvbmc='']) None) =
   Inr (Reject [''Unauthorised:'', ''Invalid credentials'']
          \<lparr>StatusCode = 401, ResponseBody = ''Invalid credentials'' @ [CHR 0x0A]\<rparr>)"
proof -
  have h1: "Header (GET_events (Some [''Basic YWxpY2U6czNjcjN0'']) None) ''Authorization'' =
      Some ((''Basic '' @ ''YWxpY2U6czNjcjN0'') # [])"
    by (simp add: Header_GET_events)
  have d1: "StdEncoding_DecodeString ''YWxpY2U6czNjcjN0'' = Some (''alice'' @ CHR '':'' # ''s3cr3t'')"
    by (simp add: decode_alice_s3cr3t)
  have h2: "Header (GET_events (Some [''Basic OnMzY3IzdA=='']) None) ''Authorization'' =
      Some ((''Basic '' @ ''OnMzY3IzdA=='') # [])"
    by (simp add: Header_GET_events)
  have d2: "StdEncoding_DecodeString ''OnMzY3IzdA=='' = Some ([] @ CHR '':'' # ''s3cr3t'')"
    by (simp add: decode_empty_user)
  have h3: "Header (GET_events (Some [''Basic YWxpY2U6d3Jvbmc='']) None) ''Authorization'' =
      Some ((''Basic '' @ ''YWxpY2U6d3Jvbmc='') # [])"
    by (simp add: Header_GET_events)
  have d3: "StdEncoding_DecodeString ''YWxpY2U6d3Jvbmc='' = Some (''alice'' @ CHR '':'' # ''wrong'')"
    by (simp add: decode_alice_wrong)
  have c1: "CHR '':'' \<notin> set ''alice''" and c2: "CHR '':'' \<notin> set ''s3cr3t''"
    and c3: "CHR '':'' \<notin> set ''wrong''" and c4: "CHR '':'' \<notin> set ''''"
    by simp_all
  show ?thesis
    using Basic_password_decides [where dec = StdEncoding_DecodeString and ?b64.0 = "''YWxpY2U6czNjcjN0''", OF h1 d1 c1 c2, of ParseForm_GET Handled "''s3cr3t''"]
      Basic_password_decides [where dec = StdEncoding_DecodeString and ?b64.0 = "''OnMzY3IzdA==''", OF h2 d2 c4 c2, of ParseForm_GET Handled "''s3cr3t''"]
      Basic_password_decides [where dec = StdEncoding_DecodeString and ?b64.0 = "''YWxpY2U6d3Jvbmc=''", OF h3 d3 c1 c3, of ParseForm_GET Handled "''s3cr3t''"]
    by (simp add: gate_def StatusUnauthorized_def)
qed

text \<open>
  The body of that answer is not exactly \<open>Invalid credentials\<close>: for the token
  \<open>s3cr3t\<close> and the credentials \<open>alice:wrong\<close> it ends with a line feed.
\<close>

theorem Basic_wrong_body_has_line_feed:
  "ServeHTTP StdEncoding_DecodeString ParseForm_GET gate
     (GET_events (Some [''Basic YWxpY2U6d3Jvbmc='']) None) =
   Inr (Reject [''Unauthorised:'', ''Invalid credentials'']
          \<lparr>StatusCode = 401, ResponseBody = ''Invalid credentials'' @ [CHR 0x0A]\<rparr>) \<and>
   ''Invalid credentials'' @ [CHR 0x0A] \<noteq> ''Invalid credentials''"
proof -
  have h: "Header (GET_events (Some [''Basic YWxpY2U6d3Jvbmc='']) None) ''Authorization'' =
      Some ((''Basic '' @ ''YWxpY2U6d3Jvbmc='') # [])"
    by (simp add: Header_GET_events)
  have d: "StdEncoding_DecodeString ''YWxpY2U6d3Jvbmc='' = Some (''alice'' @ CHR '':'' # ''wrong'')"
    by (simp add: decode_alice_wrong)
  have "authorize StdEncoding_DecodeString ParseForm_GET gate
      (GET_events (Some [''Basic YWxpY2U6d3Jvbmc='']) None) =
      Inr (GET_events (Some [''Basic YWxpY2U6d3Jvbmc='']) None, True, ''Invalid credentials'')"
    using authorize_Basic_ok [where dec = StdEncoding_DecodeString and ?b64.0 = "''YWxpY2U6d3Jvbmc=''",
        OF h d, of ParseForm_GET gate]
    by (simp add: gate_def NewAuthHandler_def)
  then show ?thesis
    by (simp add: ServeHTTP_def http_Error_def StatusUnauthorized_def)
qed

text \<open>
  Claim C5, as the code has it. A request with no Authorization header (or an empty list
  of values) is decided by the parameters \<open>ParseForm\<close> yields: it is handed to the
  downstream handler, as \<open>ParseForm\<close> left it, exactly when \<open>access_token\<close> has a
  first value and that value is the token. Otherwise it is answered through
  \<open>http.Error\<close> with the message \<open>Mising or invalid access_token\<close> and status 401,
  so the body is that message followed by a line feed.
\<close>

theorem no_header_access_token_decides:
  assumes "Header req ''Authorization'' = None \<or> Header req ''Authorization'' = Some []"
  shows "ServeHTTP dec pf (NewAuthHandler a T) req =
     (if \<exists>ws. Form (pf req) ''access_token'' = Some (T # ws)
      then Inr (Forward (a (pf req)))
      else Inr (Reject [''Unauthorised:'', ''Mising or invalid access_token'']
                  \<lparr>StatusCode = StatusUnauthorized,
                   ResponseBody = ''Mising or invalid access_token'' @ [CHR 0x0A]\<rparr>))"
proof -
  have "fst (ParseRequest req) = ''''"
    using ParseRequest_unset [OF assms] by simp
  then have "fst (ParseRequest req) \<noteq> ''Bearer''" and "fst (ParseRequest req) \<noteq> ''Basic''"
    by simp_all
  then show ?thesis
    using ServeHTTP_default [of req dec pf "NewAuthHandler a T"]
    by (simp add: NewAuthHandler_def http_Error_def)
qed

theorem no_header_access_token_decides_witness:
  "ServeHTTP StdEncoding_DecodeString ParseForm_GET gate
     (GET_events None (Some ''access_token=s3cr3t'')) =
   Inr (Forward (Handled (ParseForm_GET (GET_events None (Some ''access_token=s3cr3t''))))) \<and>
   ServeHTTP StdEncoding_DecodeString ParseForm_GET gate (GET_events None None) =
   Inr (Reject [''Unauthorised:'', ''Mising or invalid access_token'']
          \<lparr>StatusCode = 401, ResponseBody = ''Mising or invalid access_token'' @ [CHR 0x0A]\<rparr>) \<and>
   ServeHTTP StdEncoding_DecodeString ParseForm_GET gate
     (GET_events (Some []) (Some ''access_token=wrong&access_token=s3cr3t'')) =
   Inr (Reject [''Unauthorised:'', ''Mising or invalid access_token'']
          \<lparr>StatusCode = 401, ResponseBody = ''Mising or invalid access_token'' @ [CHR 0x0A]\<rparr>)"
proof -
  have h1: "Header (GET_events None (Some ''access_token=s3cr3t'')) ''Authorization'' = None \<or>
      Header (GET_events None (Some ''access_token=s3cr3t'')) ''Authorization'' = Some []"
    by (simp add: Header_GET_events)
  have h2: "Header (GET_events None None) ''Authorization'' = None \<or>
      Header (GET_events None None) ''Authorization'' = Some []"
    by (simp add: Header_GET_events)
  have h3: "Header (GET_events (Some []) (Some ''access_token=wrong&access_token=s3cr3t''))
        ''Authorization'' = None \<or>
      Header (GET_events (Some []) (Some ''access_token=wrong&access_token=s3cr3t''))
        ''Authorization'' = Some []"
    by (simp add: Header_GET_events)
  show ?thesis
    using no_header_access_token_decides [OF h1, of StdEncoding_DecodeString ParseForm_GET Handled "''s3cr3t''"]
      no_header_access_token_decides [OF h2, of StdEncoding_DecodeString ParseForm_GET Handled "''s3cr3t''"]
      no_header_access_token_decides [OF h3, of StdEncoding_DecodeString ParseForm_GET Handled "''s3cr3t''"]
    by (simp add: gate_def StatusUnauthorized_def Form_token Form_no_query Form_two_values)
qed

text \<open>
  The body of that answer is not exactly \<open>Mising or invalid access_token\<close>: for
  \<open>GET /events\<close> with no header and no parameter it ends with a line feed.
\<close>

theorem no_header_body_has_line_feed:
  "ServeHTTP StdEncoding_DecodeString ParseForm_GET gate (GET_events None None) =
   Inr (Reject [''Unauthorised:'', ''Mising or invalid access_token'']
          \<lparr>StatusCode = 401, ResponseBody = ''Mising or invalid access_token'' @ [CHR 0x0A]\<rparr>) \<and>
   ''Mising or invalid access_token'' @ [CHR 0x0A] \<noteq> ''Mising or invalid access_token''"
proof -
  have "ParseRequest (GET_events None None) =
      ('''', '''', Some ''The authorization header is not set.'')"
    by (simp add: ParseRequest_def Header_GET_events)
  then show ?thesis
    using ServeHTTP_default [of "GET_events None None" StdEncoding_DecodeString ParseForm_GET gate]
    by (simp add: Form_no_query http_Error_def StatusUnauthorized_def)
qed

text \<open>
  Claim C6. A request whose first Authorization value is \<open>scheme rest\<close> with a scheme
  other than the exact strings \<open>Bearer\<close> and \<open>Basic\<close> is not rejected for its scheme:
  it is decided by the \<open>access_token\<close> parameter alone, so with a first value equal to
  the token it is handed to the downstream handler.
\<close>

theorem other_scheme_falls_through:
  assumes "Header req ''Authorization'' = Some ((scheme @ CHR '' '' # rest) # vs)"
    and "CHR '' '' \<notin> set scheme"
    and "scheme \<noteq> ''Bearer''" and "scheme \<noteq> ''Basic''"
  shows "ServeHTTP dec pf (NewAuthHandler a T) req =
     (if \<exists>ws. Form (pf req) ''access_token'' = Some (T # ws)
      then Inr (Forward (a (pf req)))
      else Inr (Reject [''Unauthorised:'', ''Mising or invalid access_token'']
                  \<lparr>StatusCode = StatusUnauthorized,
                   ResponseBody = ''Mising or invalid access_token'' @ [CHR 0x0A]\<rparr>))"
proof -
  have "ParseRequest req = (scheme, rest, None)"
    using ParseRequest_first [OF assms(1)] Parse_cut [OF assms(2)] by simp
  then have "fst (ParseRequest req) \<noteq> ''Bearer''" and "fst (ParseRequest req) \<noteq> ''Basic''"
    using assms(3,4) by simp_all
  then show ?thesis
    using ServeHTTP_default [of req dec pf "NewAuthHandler a T"]
    by (simp add: NewAuthHandler_def http_Error_def)
qed

theorem other_scheme_falls_through_witness:
  "ServeHTTP StdEncoding_DecodeString ParseForm_GET gate
     (GET_events (Some [''Weirdscheme abc'']) (Some ''access_token=s3cr3t'')) =
   Inr (Forward (Handled (ParseForm_GET
     (GET_events (Some [''Weirdscheme abc'']) (Some ''access_token=s3cr3t''))))) \<and>
   ServeHTTP StdEncoding_DecodeString ParseForm_GET gate
     (GET_events (Some [''bearer s3cr3t'']) None) =
   Inr (Reject [''Unauthorised:'', ''Mising or invalid access_token'']
          \<lparr>StatusCode = 401, ResponseBody = ''Mising or invalid access_token'' @ [CHR 0x0A]\<rparr>)"
proof -
  have h1: "Header (GET_events (Some [''Weirdscheme abc'']) (Some ''access_token=s3cr3t''))
      ''Authorization'' = Some ((''Weirdscheme'' @ CHR '' '' # ''abc'') # [])"
    by (simp add: Header_GET_events)
  have h2: "Header (GET_events (Some [''bearer s3cr3t'']) None) ''Authorization'' =
      Some ((''bearer'' @ CHR '' '' # ''s3cr3t'') # [])"
    by (simp add: Header_GET_events)
  have s1: "CHR '' '' \<notin> set ''Weirdscheme''" "''Weirdscheme'' \<noteq> ''Bearer''"
      "''Weirdscheme'' \<noteq> ''Basic''"
    by simp_all
  have s2: "CHR '' '' \<notin> set ''bearer''" "''bearer'' \<noteq> ''Bearer''" "''bearer'' \<noteq> ''Basic''"
    by simp_all
  show ?thesis
    using other_scheme_falls_through [OF h1 s1, of StdEncoding_DecodeString ParseForm_GET Handled "''s3cr3t''"]
      other_scheme_falls_through [OF h2 s2, of StdEncoding_DecodeString ParseForm_GET Handled "''s3cr3t''"]
    by (simp add: gate_def StatusUnauthorized_def http_Error_def Form_token Form_no_query)
qed

text \<open>
  A header value that does not split is not rejected as malformed: with the token
  \<open>s3cr3t\<close>, the request \<open>GET /events?access_token=s3cr3t\<close> with the header
  \<open>Authorization: Bearer\<close> (no space, so \<open>SplitN\<close> gives one part) is handed to the
  downstream handler.
\<close>

theorem malformed_header_forwarded:
  "Header (GET_events (Some [''Bearer'']) (Some ''access_token=s3cr3t'')) ''Authorization'' =
     Some [''Bearer''] \<and>
   length (SplitN ''Bearer'' CHR '' '' 2) = 1 \<and>
   ServeHTTP StdEncoding_DecodeString ParseForm_GET gate
     (GET_events (Some [''Bearer'']) (Some ''access_token=s3cr3t'')) =
   Inr (Forward (Handled (ParseForm_GET
     (GET_events (Some [''Bearer'']) (Some ''access_token=s3cr3t'')))))"
proof -
  have p: "ParseRequest (GET_events (Some [''Bearer'']) (Some ''access_token=s3cr3t'')) =
      ('''', '''', Some ''The authorization header is malformed.'')"
    by (simp add: ParseRequest_def Header_GET_events Parse_no_space)
  have "ServeHTTP StdEncoding_DecodeString ParseForm_GET gate
     (GET_events (Some [''Bearer'']) (Some ''access_token=s3cr3t'')) =
   Inr (Forward (Handled (ParseForm_GET
     (GET_events (Some [''Bearer'']) (Some ''access_token=s3cr3t'')))))"
    using ServeHTTP_default [of "GET_events (Some [''Bearer'']) (Some ''access_token=s3cr3t'')"
        StdEncoding_DecodeString ParseForm_GET gate]
    by (simp add: p gate_def NewAuthHandler_def Form_token)
  then show ?thesis
    by (simp add: Header_GET_events SplitN_2_no_sep)
qed

text \<open>
  Claim C2, as the code has it. \<open>authorize\<close> discards the error of \<open>ParseRequest\<close>, so a
  request whose first Authorization value does not split on the first space into two
  parts is treated as one with no header: it is decided by the \<open>access_token\<close>
  parameter, and the only rejection it can get is the one for a missing or invalid
  \<open>access_token\<close>.
\<close>

theorem malformed_header_falls_through:
  assumes "Header req ''Authorization'' = Some (v # vs)"
    and "length (SplitN v CHR '' '' 2) \<noteq> 2"
  shows "ServeHTTP dec pf (NewAuthHandler a T) req =
     (if \<exists>ws. Form (pf req) ''access_token'' = Some (T # ws)
      then Inr (Forward (a (pf req)))
      else Inr (Reject [''Unauthorised:'', ''Mising or invalid access_token'']
                  \<lparr>StatusCode = StatusUnauthorized,
                   ResponseBody = ''Mising or invalid access_token'' @ [CHR 0x0A]\<rparr>))"
proof -
  have "CHR '' '' \<notin> set v"
    using assms(2) by (simp add: length_SplitN_2)
  then have "ParseRequest req = ('''', '''', Some ''The authorization header is malformed.'')"
    using ParseRequest_first [OF assms(1)] by (simp add: Parse_no_space)
  then have "fst (ParseRequest req) \<noteq> ''Bearer''" and "fst (ParseRequest req) \<noteq> ''Basic''"
    by simp_all
  then show ?thesis
    using ServeHTTP_default [of req dec pf "NewAuthHandler a T"]
    by (simp add: NewAuthHandler_def http_Error_def)
qed

theorem malformed_header_falls_through_witness:
  "ServeHTTP StdEncoding_DecodeString ParseForm_GET gate
     (GET_events (Some [''s3cr3t'']) (Some ''access_token=s3cr3t'')) =
   Inr (Forward (Handled (ParseForm_GET
     (GET_events (Some [''s3cr3t'']) (Some ''access_token=s3cr3t''))))) \<and>
   ServeHTTP StdEncoding_DecodeString ParseForm_GET gate
     (GET_events (Some [''s3cr3t'']) None) =
   Inr (Reject [''Unauthorised:'', ''Mising or invalid access_token'']
          \<lparr>StatusCode = 401, ResponseBody = ''Mising or invalid access_token'' @ [CHR 0x0A]\<rparr>)"
proof -
  have h1: "Header (GET_events (Some [''s3cr3t'']) (Some ''access_token=s3cr3t'')) ''Authorization'' =
      Some (''s3cr3t'' # [])"
    by (simp add: Header_GET_events)
  have h2: "Header (GET_events (Some [''s3cr3t'']) None) ''Authorization'' = Some (''s3cr3t'' # [])"
    by (simp add: Header_GET_events)
  have n: "length (SplitN ''s3cr3t'' CHR '' '' 2) \<noteq> 2"
    by (simp add: length_SplitN_2)
  show ?thesis
    using malformed_header_falls_through [OF h1 n, of StdEncoding_DecodeString ParseForm_GET Handled "''s3cr3t''"]
      malformed_header_falls_through [OF h2 n, of StdEncoding_DecodeString ParseForm_GET Handled "''s3cr3t''"]
    by (simp add: gate_def StatusUnauthorized_def http_Error_def Form_token Form_no_query)
qed

text \<open>
  Claim C10. \<open>NewAuthHandler\<close> accepts any token. With the empty token configured, a
  request with no Authorization header whose \<open>access_token\<close> parameter has an empty
  first value is handed to the downstream handler.
\<close>

theorem empty_token_empty_parameter_forwarded:
  assumes "Header req ''Authorization'' = None \<or> Header req ''Authorization'' = Some []"
    and "Form (pf req) ''access_token'' = Some ('''' # ws)"
  shows "ServeHTTP dec pf (NewAuthHandler a '''') req = Inr (Forward (a (pf req)))"
proof -
  have "fst (ParseRequest req) = ''''"
    using ParseRequest_unset [OF assms(1)] by simp
  then have "fst (ParseRequest req) \<noteq> ''Bearer''" and "fst (ParseRequest req) \<noteq> ''Basic''"
    by simp_all
  then show ?thesis
    using ServeHTTP_default [of req dec pf "NewAuthHandler a ''''"] assms(2)
    by (simp add: NewAuthHandler_def)
qed

theorem empty_token_empty_parameter_forwarded_witness:
  "ServeHTTP StdEncoding_DecodeString ParseForm_GET open_gate
     (GET_events None (Some ''access_token='')) =
   Inr (Forward (Handled (ParseForm_GET (GET_events None (Some ''access_token='')))))"
proof -
  have h: "Header (GET_events None (Some ''access_token='')) ''Authorization'' = None \<or>
      Header (GET_events None (Some ''access_token='')) ''Authorization'' = Some []"
    by (simp add: Header_GET_events)
  have f: "Form (ParseForm_GET (GET_events None (Some ''access_token=''))) ''access_token'' =
      Some ('''' # [])"
    by (simp add: Form_empty_value)
  show ?thesis
    using empty_token_empty_parameter_forwarded [where pf = ParseForm_GET, OF h f,
        of StdEncoding_DecodeString Handled]
    by (simp add: open_gate_def)
qed

lemma NewBasic_cases:
  "NewBasic dec c =
     (case dec c of
        None \<Rightarrow> (None, Some ''The basic authentication header is malformed.'')
      | Some b \<Rightarrow>
          if count_list b CHR '':'' = 1
          then (Some \<lparr>Username = Split b CHR '':'' ! 0, Password = Split b CHR '':'' ! 1\<rparr>, None)
          else (None, Some ''The basic authentication header is malformed.''))"
  by (simp add: NewBasic_def length_Split Let_def split: option.splits)

lemma list_of_length_2: "length xs = 2 \<Longrightarrow> xs = [xs ! 0, xs ! 1]"
  by (cases xs; cases "tl xs") auto

text \<open>
  Claim C7. \<open>NewBasic\<close> returns the pair \<open>(u, p)\<close> without an error exactly when its
  input decodes to \<open>u:p\<close> with no colon in \<open>u\<close> or \<open>p\<close>; it returns the nil pointer
  with the error exactly when decoding fails or the decoded text does not hold exactly
  one colon (none, or a password with a colon in it); and it always returns one of the
  two.
\<close>

theorem NewBasic_characterisation:
  "(NewBasic dec c = (Some \<lparr>Username = u, Password = p\<rparr>, None) \<longleftrightarrow>
      dec c = Some (u @ CHR '':'' # p) \<and> CHR '':'' \<notin> set u \<and> CHR '':'' \<notin> set p) \<and>
   (NewBasic dec c = (None, Some ''The basic authentication header is malformed.'') \<longleftrightarrow>
      dec c = None \<or> (\<exists>b. dec c = Some b \<and> count_list b CHR '':'' \<noteq> 1)) \<and>
   ((\<exists>u p. NewBasic dec c = (Some \<lparr>Username = u, Password = p\<rparr>, None)) \<or>
    NewBasic dec c = (None, Some ''The basic authentication header is malformed.''))"
proof (intro conjI)
  show "NewBasic dec c = (Some \<lparr>Username = u, Password = p\<rparr>, None) \<longleftrightarrow>
      dec c = Some (u @ CHR '':'' # p) \<and> CHR '':'' \<notin> set u \<and> CHR '':'' \<notin> set p"
  proof
    assume r: "NewBasic dec c = (Some \<lparr>Username = u, Password = p\<rparr>, None)"
    then obtain b where b: "dec c = Some b"
      by (cases "dec c") (simp_all add: NewBasic_cases)
    with r have n: "count_list b CHR '':'' = 1"
      and up: "Split b CHR '':'' ! 0 = u" "Split b CHR '':'' ! 1 = p"
      by (simp_all add: NewBasic_cases split: if_splits)
    from n have "length (Split b CHR '':'') = 2" by (simp add: length_Split)
    then have "Split b CHR '':'' = [u, p]"
      using list_of_length_2 [of "Split b CHR '':''"] up by simp
    then show "dec c = Some (u @ CHR '':'' # p) \<and> CHR '':'' \<notin> set u \<and> CHR '':'' \<notin> set p"
      using b by (simp add: Split_two_iff)
  next
    assume "dec c = Some (u @ CHR '':'' # p) \<and> CHR '':'' \<notin> set u \<and> CHR '':'' \<notin> set p"
    then show "NewBasic dec c = (Some \<lparr>Username = u, Password = p\<rparr>, None)"
      by (simp add: NewBasic_ok)
  qed
next
  show "NewBasic dec c = (None, Some ''The basic authentication header is malformed.'') \<longleftrightarrow>
      dec c = None \<or> (\<exists>b. dec c = Some b \<and> count_list b CHR '':'' \<noteq> 1)"
    by (cases "dec c") (simp_all add: NewBasic_cases)
next
  show "(\<exists>u p. NewBasic dec c = (Some \<lparr>Username = u, Password = p\<rparr>, None)) \<or>
    NewBasic dec c = (None, Some ''The basic authentication header is malformed.'')"
    by (cases "dec c") (simp_all add: NewBasic_cases)
qed

theorem NewBasic_characterisation_witness:
  "NewBasic StdEncoding_DecodeString ''YWxpY2U6czNjcjN0'' =
     (Some \<lparr>Username = ''alice'', Password = ''s3cr3t''\<rparr>, None) \<and>
   NewBasic StdEncoding_DecodeString ''YWxpY2U6czM6Y3IzdA=='' =
     (None, Some ''The basic authentication header is malformed.'') \<and>
   NewBasic StdEncoding_DecodeString ''YWxpY2VzM2NyM3Q='' =
     (None, Some ''The basic authentication header is malformed.'') \<and>
   NewBasic StdEncoding_DecodeString ''!!!'' =
     (None, Some ''The basic authentication header is malformed.'')"
  using NewBasic_characterisation [of StdEncoding_DecodeString "''YWxpY2U6czNjcjN0''" "''alice''" "''s3cr3t''"]
    NewBasic_characterisation [of StdEncoding_DecodeString "''YWxpY2U6czM6Y3IzdA==''" "''''" "''''"]
    NewBasic_characterisation [of StdEncoding_DecodeString "''YWxpY2VzM2NyM3Q=''" "''''" "''''"]
    NewBasic_characterisation [of StdEncoding_DecodeString "''!!!''" "''''" "''''"]
  by (simp add: decode_alice_s3cr3t decode_two_colons decode_no_colon decode_not_base64)

lemma ParseRequest_Header_cong:
  "Header r1 ''Authorization'' = Header r2 ''Authorization'' \<Longrightarrow> ParseRequest r1 = ParseRequest r2"
  by (simp add: ParseRequest_def)

lemma decision_cong:
  assumes "ParseRequest r1 = ParseRequest r2"
    and "Form (pf r1) ''access_token'' = Form (pf r2) ''access_token''"
  shows "decision (authorize dec pf h r1) = decision (authorize dec pf h r2)"
proof -
  obtain sch cred e where p: "ParseRequest r2 = (sch, cred, e)"
    by (cases "ParseRequest r2") auto
  show ?thesis
    unfolding authorize_def assms(1) p
    by (simp add: decision_def Let_def assms(2) split: prod.splits option.splits)
qed

lemma authorize_request_after:
  assumes "authorize dec pf h req = Inr (req', d)"
  shows "req' = req \<or> req' = pf req"
proof -
  obtain sch cred e where p: "ParseRequest req = (sch, cred, e)"
    by (cases "ParseRequest req") auto
  show ?thesis
    using assms unfolding authorize_def p
    by (auto simp: Let_def split: prod.splits option.splits if_splits)
qed

lemma decision_after:
  assumes hdr: "\<forall>r. Header (pf r) = Header r"
    and idem: "\<forall>r. Form (pf (pf r)) ''access_token'' = Form (pf r) ''access_token''"
    and run: "authorize dec pf h req = Inr (req', d)"
  shows "decision (authorize dec pf h req') = Inr d"
proof -
  have d: "decision (authorize dec pf h req) = Inr d"
    using run by (simp add: decision_def)
  from authorize_request_after [OF run] show ?thesis
  proof
    assume "req' = req"
    with d show ?thesis by simp
  next
    assume r: "req' = pf req"
    have same: "ParseRequest (pf req) = ParseRequest req"
      using hdr ParseRequest_Header_cong [of "pf req" req] by simp
    have f: "Form (pf (pf req)) ''access_token'' = Form (pf req) ''access_token''"
      using idem by simp
    have "decision (authorize dec pf h (pf req)) = decision (authorize dec pf h req)"
      using same f by (rule decision_cong)
    with d r show ?thesis by simp
  qed
qed

text \<open>
  Claim C8. \<open>authorize\<close> reads the token, the request and nothing else, and the only
  thing it changes is the request, through \<open>ParseForm\<close>. When \<open>ParseForm\<close> leaves the
  headers alone and parsing twice yields the \<open>access_token\<close> values of parsing once
  (both documented for net/http), any number of evaluations of one request give the
  same decision and the same reason as the first.
\<close>

theorem authorize_repeat_constant:
  assumes "\<forall>r. Header (pf r) = Header r"
    and "\<forall>r. Form (pf (pf r)) ''access_token'' = Form (pf r) ''access_token''"
  shows "authorize_repeat n dec pf h req = replicate n (decision (authorize dec pf h req))"
proof (induction n arbitrary: req)
  case 0
  show ?case by simp
next
  case (Suc n)
  show ?case
  proof (cases "authorize dec pf h req")
    case (Inl e)
    then show ?thesis
      using Suc.IH [of req] by (simp add: decision_def)
  next
    case (Inr x)
    then obtain req' d where x: "authorize dec pf h req = Inr (req', d)"
      by (cases x) auto
    have "decision (authorize dec pf h req') = Inr d"
      using assms x by (rule decision_after)
    then show ?thesis
      using Suc.IH [of req'] x by (simp add: decision_def)
  qed
qed

theorem authorize_repeat_constant_witness:
  "authorize_repeat 3 StdEncoding_DecodeString ParseForm_GET gate
     (GET_events None (Some ''access_token=s3cr3t'')) = replicate 3 (Inr (False, '''')) \<and>
   authorize_repeat 2 StdEncoding_DecodeString ParseForm_GET gate
     (GET_events (Some [''Bearer wrong'']) None) =
     replicate 2 (Inr (True, ''Invalid Access Token'')) \<and>
   authorize_repeat 2 StdEncoding_DecodeString ParseForm_GET gate
     (GET_events (Some [''Basic !!!'']) None) = replicate 2 (Inl NilPointerDereference)"
proof -
  have h: "\<forall>r. Header (ParseForm_GET r) = Header r"
    by (simp add: Header_ParseForm_GET)
  have i: "\<forall>r. Form (ParseForm_GET (ParseForm_GET r)) ''access_token'' =
      Form (ParseForm_GET r) ''access_token''"
    by (simp add: ParseForm_GET_idem)
  have p1: "ParseRequest (GET_events None (Some ''access_token=s3cr3t'')) =
      ('''', '''', Some ''The authorization header is not set.'')"
    by (simp add: ParseRequest_def Header_GET_events)
  have a1: "decision (authorize StdEncoding_DecodeString ParseForm_GET gate
      (GET_events None (Some ''access_token=s3cr3t''))) = Inr (False, '''')"
    using authorize_default [of "GET_events None (Some ''access_token=s3cr3t'')"
        StdEncoding_DecodeString ParseForm_GET gate]
    by (simp add: p1 Form_token gate_def NewAuthHandler_def decision_def)
  have a2: "decision (authorize StdEncoding_DecodeString ParseForm_GET gate
      (GET_events (Some [''Bearer wrong'']) None)) = Inr (True, ''Invalid Access Token'')"
    using authorize_Bearer [of "GET_events (Some [''Bearer wrong'']) None" "''wrong''" "[]"
        StdEncoding_DecodeString ParseForm_GET gate]
    by (simp add: Header_GET_events gate_def NewAuthHandler_def decision_def)
  have a3: "decision (authorize StdEncoding_DecodeString ParseForm_GET gate
      (GET_events (Some [''Basic !!!'']) None)) = Inl NilPointerDereference"
    using authorize_Basic_malformed [where dec = StdEncoding_DecodeString and cred = "''!!!''",
        of "GET_events (Some [''Basic !!!'']) None" "[]" ParseForm_GET gate]
    by (simp add: Header_GET_events decode_not_base64 decision_def)
  show ?thesis
    using authorize_repeat_constant [OF h i, of 3 StdEncoding_DecodeString gate
        "GET_events None (Some ''access_token=s3cr3t'')"]
      authorize_repeat_constant [OF h i, of 2 StdEncoding_DecodeString gate
        "GET_events (Some [''Bearer wrong'']) None"]
      authorize_repeat_constant [OF h i, of 2 StdEncoding_DecodeString gate
        "GET_events (Some [''Basic !!!'']) None"]
    unfolding a1 a2 a3 by blast
qed

text \<open>
  Claim C9. Only the first value of the Authorization header is parsed: when
  \<open>ParseForm\<close> yields the same \<open>access_token\<close> values whatever the Authorization
  header holds, the scheme, the credentials and the decision for a request are those for
  the same request with only its first Authorization value.
\<close>

theorem first_Authorization_value_decides:
  assumes "Header req ''Authorization'' = Some (v # vs)"
    and "Form (pf (req\<lparr>Header := (Header req)(''Authorization'' \<mapsto> [v])\<rparr>)) ''access_token'' =
         Form (pf req) ''access_token''"
  shows "ParseRequest req = ParseRequest (req\<lparr>Header := (Header req)(''Authorization'' \<mapsto> [v])\<rparr>) \<and>
     decision (authorize dec pf h req) =
     decision (authorize dec pf h (req\<lparr>Header := (Header req)(''Authorization'' \<mapsto> [v])\<rparr>))"
proof -
  have p: "ParseRequest req =
      ParseRequest (req\<lparr>Header := (Header req)(''Authorization'' \<mapsto> [v])\<rparr>)"
    using assms(1) by (simp add: ParseRequest_def)
  have "decision (authorize dec pf h req) =
     decision (authorize dec pf h (req\<lparr>Header := (Header req)(''Authorization'' \<mapsto> [v])\<rparr>))"
    using p assms(2) [symmetric] by (rule decision_cong)
  with p show ?thesis by blast
qed

theorem first_Authorization_value_decides_witness:
  "decision (authorize StdEncoding_DecodeString ParseForm_GET gate
     (GET_events (Some [''Bearer s3cr3t'', ''Bearer wrong'', ''Basic !!!'']) None)) =
   decision (authorize StdEncoding_DecodeString ParseForm_GET gate
     (GET_events (Some [''Bearer s3cr3t'']) None)) \<and>
   decision (authorize StdEncoding_DecodeString ParseForm_GET gate
     (GET_events (Some [''Bearer s3cr3t'']) None)) = Inr (False, '''')"
proof -
  have h: "Header (GET_events (Some [''Bearer s3cr3t'', ''Bearer wrong'', ''Basic !!!'']) None)
      ''Authorization'' = Some (''Bearer s3cr3t'' # [''Bearer wrong'', ''Basic !!!''])"
    by (simp add: Header_GET_events)
  have r: "(GET_events (Some [''Bearer s3cr3t'', ''Bearer wrong'', ''Basic !!!'']) None)
      \<lparr>Header := (Header (GET_events (Some [''Bearer s3cr3t'', ''Bearer wrong'', ''Basic !!!'']) None))
        (''Authorization'' \<mapsto> [''Bearer s3cr3t''])\<rparr> = GET_events (Some [''Bearer s3cr3t'']) None"
    by (simp add: GET_events_def)
  have f: "Form (ParseForm_GET
      ((GET_events (Some [''Bearer s3cr3t'', ''Bearer wrong'', ''Basic !!!'']) None)
        \<lparr>Header := (Header (GET_events (Some [''Bearer s3cr3t'', ''Bearer wrong'', ''Basic !!!'']) None))
          (''Authorization'' \<mapsto> [''Bearer s3cr3t''])\<rparr>)) ''access_token'' =
      Form (ParseForm_GET (GET_events (Some [''Bearer s3cr3t'', ''Bearer wrong'', ''Basic !!!'']) None))
        ''access_token''"
    unfolding r by (simp add: Form_no_query)
  have a: "decision (authorize StdEncoding_DecodeString ParseForm_GET gate
      (GET_events (Some [''Bearer s3cr3t'']) None)) = Inr (False, '''')"
    using authorize_Bearer [of "GET_events (Some [''Bearer s3cr3t'']) None" "''s3cr3t''" "[]"
        StdEncoding_DecodeString ParseForm_GET gate]
    by (simp add: Header_GET_events gate_def NewAuthHandler_def decision_def)
  show ?thesis
    using first_Authorization_value_decides [where pf = ParseForm_GET, OF h f,
        of StdEncoding_DecodeString gate]
    unfolding r a by blast
qed

end
